theory Spec2Isabelle
  imports Main "HOL-Library.Sublist"
begin

section \<open>Errors\<close>

text \<open>
  The three kinds of exception the two source files meet: a plain \<^verbatim>\<open>Error\<close>
  (thrown by the template renderer), a \<^verbatim>\<open>CliError\<close> (thrown by \<^verbatim>\<open>login\<close>) and
  the HTTP error of the API client, which carries a status code.
\<close>

datatype error =
    Error string
  | CliError string
  | HttpError string nat

text \<open>
  Modelled from the spec: \<^verbatim>\<open>isHttpError\<close> of \<^verbatim>\<open>error.js\<close>, which is not among the
  sources. The spec names the error \<^verbatim>\<open>HttpError(status)\<close>; the test is the test
  for that constructor, and \<^verbatim>\<open>statusCode\<close> reads its code.
\<close>

fun isHttpError :: "error \<Rightarrow> bool" where
  "isHttpError (HttpError m c) = True"
| "isHttpError (Error m) = False"
| "isHttpError (CliError m) = False"

fun statusCode :: "error \<Rightarrow> nat option" where
  "statusCode (HttpError m c) = Some c"
| "statusCode (Error m) = None"
| "statusCode (CliError m) = None"


section \<open>observableApiAuth.ts\<close>

subsection \<open>Data\<close>

text \<open>
  The \<^verbatim>\<open>apiKey\<close> field of a poll response as \<^verbatim>\<open>login\<close> reads it. The loop tests it
  with \<^verbatim>\<open>apiKey === null\<close> and the line after the loop with \<^verbatim>\<open>!apiKey\<close>, so the
  JavaScript values \<^verbatim>\<open>null\<close> and \<^verbatim>\<open>undefined\<close> are told apart; an object carries
  the pair \<^verbatim>\<open>{id, key}\<close>.
\<close>

datatype api_key_field =
    Null
  | Undefined
  | ApiKeyObj string string

record poll_response =
  status :: string
  apiKey :: api_key_field

record auth_request =
  request_id :: string
  confirmationCode :: string

text \<open>\<^verbatim>\<open>{name?: string; login: string}\<close>, the argument of \<^verbatim>\<open>formatUser\<close>; a user adds workspaces.\<close>

record account =
  account_name :: "string option"
  account_login :: string

record user = account +
  workspaces :: "account list"

text \<open>The credential \<^verbatim>\<open>whoami\<close> loads: its provenance, the variable's name, the key.\<close>

record api_key =
  source :: string
  envVar :: string
  key :: string

text \<open>
  Every call \<^verbatim>\<open>login\<close>, \<^verbatim>\<open>logout\<close> and \<^verbatim>\<open>whoami\<close> make on their collaborators, in the
  order made. User-facing texts are kept without the terminal styling of \<^verbatim>\<open>tty.js\<close>
  and without the emoji of the farewell; a note is kept as its lines, which the source
  joins with line feeds. \<open>SpinnerStop m c\<close> is \<^verbatim>\<open>spinner.stop(m, c)\<close>, and
  \<open>ClientSetApiKey s k\<close> is \<^verbatim>\<open>apiClient.setApiKey({source: s, key: k})\<close>.
\<close>

datatype auth_event =
    Intro string
  | PostAuthRequest "string list"
  | LogStep string
  | SpinnerStart string
  | PostAuthRequestPoll string
  | Sleep nat
  | SpinnerStop string "nat option"
  | SetObservableApiKey "(string \<times> string) option"
  | ClientSetApiKey string string
  | GetCurrentUser
  | LogWarn string
  | Note "string list"
  | Outro string
  | LoggerLog string

text \<open>
  The world \<^verbatim>\<open>login\<close> and \<^verbatim>\<open>logout\<close> act on: the stored credential, the results the
  polls still to come will yield (a poll can also reject), and the calls made so far.
\<close>

record auth_world =
  store :: "(string \<times> string) option"
  polls :: "(error + poll_response) list"
  trace :: "auth_event list"

text \<open>The answers of the other collaborators, fixed for one run.\<close>

record auth_env =
  authRequest :: "error + auth_request"
  currentUser :: "string \<Rightarrow> error + user"
  storedApiKey :: "error + api_key"
  hostname :: string
  loginInstruction :: string


subsection \<open>Operations\<close>

definition formatUser :: "'a account_scheme \<Rightarrow> string" where
  "formatUser u =
     (case account_name u of
        None \<Rightarrow> ''@'' @ account_login u
      | Some n \<Rightarrow>
          if n \<noteq> [] then n @ '' (@'' @ account_login u @ '')''
          else ''@'' @ account_login u)"

text \<open>
  Modelled from the spec: \<^verbatim>\<open>setObservableApiKey\<close> of \<^verbatim>\<open>observableApiConfig.js\<close>, which
  is not among the sources. The spec: the store holds a single credential;
  \<^verbatim>\<open>set(key|null)\<close>, where null means erase.
\<close>

definition setObservableApiKey :: "(string \<times> string) option \<Rightarrow> auth_world \<Rightarrow> auth_world" where
  "setObservableApiKey info w =
     w\<lparr>store := info, trace := trace w @ [SetObservableApiKey info]\<rparr>"

text \<open>
  The \<^verbatim>\<open>while (apiKey === null)\<close> loop of \<^verbatim>\<open>login\<close>, lines 51 to 71. Each round takes
  the next poll result. The loop has no bound of its own: when the results run out while
  it is still polling, the value is \<open>None\<close>. Otherwise it is the error thrown, or the
  value of \<^verbatim>\<open>apiKey\<close> that ended the loop. The remaining poll results and the calls
  made are returned with it.
\<close>

fun poll_loop ::
  "string \<Rightarrow> (error + poll_response) list \<Rightarrow> auth_event list \<Rightarrow>
     (error + api_key_field) option \<times> (error + poll_response) list \<times> auth_event list" where
  "poll_loop rid [] tr = (None, [], tr)"
| "poll_loop rid (Inl e # ps) tr = (Some (Inl e), ps, tr @ [PostAuthRequestPoll rid])"
| "poll_loop rid (Inr requestPoll # ps) tr =
     (let tr1 = tr @ [PostAuthRequestPoll rid] in
      if status requestPoll = ''pending'' then
        poll_loop rid ps (tr1 @ [Sleep 1000])
      else if status requestPoll = ''accepted'' then
        (case apiKey requestPoll of
           Null \<Rightarrow> poll_loop rid ps (tr1 @ [Sleep 1000])
         | Undefined \<Rightarrow> (Some (Inr Undefined), ps, tr1 @ [Sleep 1000])
         | ApiKeyObj i k \<Rightarrow> (Some (Inr (ApiKeyObj i k)), ps, tr1 @ [Sleep 1000]))
      else if status requestPoll = ''expired'' then
        (Some (Inl (CliError ''That confirmation code expired.'')), ps,
         tr1 @ [SpinnerStop ''Failed to confirm code.'' (Some 2)])
      else if status requestPoll = ''consumed'' then
        (Some (Inl (CliError ''That confirmation code has already been used.'')), ps,
         tr1 @ [SpinnerStop ''Failed to confirm code.'' (Some 2)])
      else
        (Some (Inl (CliError (''Received an unknown polling status '' @ status requestPoll @ ''.''))),
         ps, tr1 @ [SpinnerStop ''Failed to confirm code.'' (Some 2)]))"

text \<open>The part of \<^verbatim>\<open>login\<close> after a key was accepted, lines 74 to 91.\<close>

definition login_accepted ::
  "auth_env \<Rightarrow> string \<Rightarrow> string \<Rightarrow> auth_world \<Rightarrow> (error + unit) option \<times> auth_world" where
  "login_accepted E i k w =
     (let w1 = setObservableApiKey (Some (i, k)) w;
          w2 = w1\<lparr>trace := trace w1 @ [ClientSetApiKey ''login'' k, GetCurrentUser]\<rparr>
      in case currentUser E k of
           Inl e \<Rightarrow> (Some (Inl e), w2)
         | Inr u \<Rightarrow>
             (let tr3 = trace w2 @
                    [SpinnerStop (''You are logged into '' @ hostname E @ '' as '' @ formatUser u @ ''.'') None];
                  tr4 =
                    (if length (workspaces u) = 0 then
                       tr3 @ [LogWarn ''Warning: You don't have any workspaces to deploy to.'']
                     else if length (workspaces u) > 1 then
                       tr3 @ [Note (''You have access to the following workspaces:'' # '''' #
                                map (\<lambda>workspace. '' * '' @ formatUser workspace) (workspaces u))]
                     else tr3)
              in (Some (Inr ()), w2\<lparr>trace := tr4 @ [Outro ''Happy visualizing!'']\<rparr>)))"

definition login :: "auth_env \<Rightarrow> auth_world \<Rightarrow> (error + unit) option \<times> auth_world" where
  "login E w =
     (let tr0 = trace w @
            [Intro '' observable login '', PostAuthRequest [''projects:deploy'', ''projects:create'']]
      in case authRequest E of
           Inl e \<Rightarrow> (Some (Inl e), w\<lparr>trace := tr0\<rparr>)
         | Inr requestInfo \<Rightarrow>
             (let tr1 = tr0 @
                    [LogStep (confirmationCode requestInfo), SpinnerStart ''Waiting for confirmation...'']
              in case poll_loop (request_id requestInfo) (polls w) tr1 of
                   (None, ps, tr2) \<Rightarrow> (None, w\<lparr>polls := ps, trace := tr2\<rparr>)
                 | (Some (Inl e), ps, tr2) \<Rightarrow> (Some (Inl e), w\<lparr>polls := ps, trace := tr2\<rparr>)
                 | (Some (Inr Null), ps, tr2) \<Rightarrow>
                     (Some (Inl (CliError ''No API key returned from server.'')),
                      w\<lparr>polls := ps, trace := tr2\<rparr>)
                 | (Some (Inr Undefined), ps, tr2) \<Rightarrow>
                     (Some (Inl (CliError ''No API key returned from server.'')),
                      w\<lparr>polls := ps, trace := tr2\<rparr>)
                 | (Some (Inr (ApiKeyObj i k)), ps, tr2) \<Rightarrow>
                     login_accepted E i k (w\<lparr>polls := ps, trace := tr2\<rparr>)))"

definition logout :: "auth_world \<Rightarrow> (error + unit) \<times> auth_world" where
  "logout w = (Inr (), setObservableApiKey None w)"

definition whoami :: "auth_env \<Rightarrow> auth_event list \<Rightarrow> (error + unit) \<times> auth_event list" where
  "whoami E tr =
     (case storedApiKey E of
        Inl e \<Rightarrow> (Inl e, tr)
      | Inr apiKey' \<Rightarrow>
          (case currentUser E (key apiKey') of
             Inr u \<Rightarrow>
               (Inr (),
                tr @ [GetCurrentUser, LoggerLog '''',
                      LoggerLog (''You are logged into '' @ hostname E @ '' as '' @ formatUser u @ ''.''),
                      LoggerLog '''',
                      LoggerLog ''You have access to the following workspaces:''] @
                     map (\<lambda>workspace. LoggerLog ('' * '' @ formatUser workspace)) (workspaces u) @
                     [LoggerLog ''''])
           | Inl err \<Rightarrow>
               (if isHttpError err \<and> statusCode err = Some 401 then
                  (if source apiKey' = ''env'' then
                     (Inr (), tr @ [GetCurrentUser, LoggerLog
                        (''Your API key is invalid. Check the value of the '' @ envVar apiKey' @
                         '' environment variable.'')])
                   else if source apiKey' = ''file'' then
                     (Inr (), tr @ [GetCurrentUser, LoggerLog
                        (''Your API key is invalid. Run '' @ loginInstruction E @ '' to log in again.'')])
                   else
                     (Inr (), tr @ [GetCurrentUser, LoggerLog ''Your API key is invalid.''])
                  )
                else (Inl err, tr @ [GetCurrentUser]))))"


section \<open>create.ts\<close>

subsection \<open>Path validation\<close>

text \<open>
  What \<^verbatim>\<open>validateRootPath\<close> and \<^verbatim>\<open>canWriteRecursive\<close> ask of \<^verbatim>\<open>node:path\<close> and
  \<^verbatim>\<open>node:fs\<close>. \<open>accessSync F d\<close> holds when \<^verbatim>\<open>accessSync(d, constants.W_OK)\<close>
  returns without throwing. \<open>isDirectory F p\<close> is \<^verbatim>\<open>statSync(p).isDirectory()\<close>, which
  the source only calls on a path \<^verbatim>\<open>existsSync\<close> accepted. \<^verbatim>\<open>readdirSync\<close> can throw
  on a directory that exists (one that cannot be read).
\<close>

record fs =
  normalize :: "string \<Rightarrow> string"
  dirname :: "string \<Rightarrow> string"
  accessSync :: "string \<Rightarrow> bool"
  existsSync :: "string \<Rightarrow> bool"
  isDirectory :: "string \<Rightarrow> bool"
  readdirSync :: "string \<Rightarrow> error + string list"

text \<open>
  The \<^verbatim>\<open>while (true)\<close> loop of \<^verbatim>\<open>canWriteRecursive\<close>. It ends when a directory is
  writable or when \<^verbatim>\<open>dirname\<close> returns its argument; with a \<^verbatim>\<open>dirname\<close> that never
  does, and nothing writable, it runs forever: the value \<open>None\<close>.
\<close>

partial_function (option) canWriteRecursive :: "fs \<Rightarrow> string \<Rightarrow> bool option" where
  "canWriteRecursive F rootPath =
     (let dir = dirname F rootPath in
      if accessSync F dir then Some True
      else if dir = rootPath then Some False
      else canWriteRecursive F dir)"

text \<open>
  \<^verbatim>\<open>validateRootPath\<close>: \<open>Inr None\<close> is the \<^verbatim>\<open>undefined\<close> that accepts the path,
  \<open>Inr (Some m)\<close> the message that rejects it, \<open>Inl e\<close> an exception.
\<close>

definition validateRootPath :: "fs \<Rightarrow> string \<Rightarrow> (error + string option) option" where
  "validateRootPath F rootPath =
     (if rootPath = [] then Some (Inr None)
      else
        (let rootPath = normalize F rootPath in
         case canWriteRecursive F rootPath of
           None \<Rightarrow> None
         | Some w \<Rightarrow>
             if \<not> w then Some (Inr (Some ''Path is not writable.''))
             else if \<not> existsSync F rootPath then Some (Inr None)
             else if \<not> isDirectory F rootPath then Some (Inr (Some ''File already exists.''))
             else
               (case readdirSync F rootPath of
                  Inl e \<Rightarrow> Some (Inl e)
                | Inr entries \<Rightarrow>
                    if length entries \<noteq> 0 then Some (Inr (Some ''Directory is not empty.''))
                    else Some (Inr None))))"


subsection \<open>Placeholder substitution\<close>

text \<open>
  A \<open>char\<close> stands for a UTF-16 code unit below 256. On these, \<^verbatim>\<open>\s\<close> of a
  JavaScript regular expression is the tab, line feed, vertical tab, form feed, carriage
  return, space and no-break space, and \<^verbatim>\<open>\w\<close> is a digit, a letter or the underscore.
\<close>

definition is_space :: "char \<Rightarrow> bool" where
  "is_space c = (of_char c \<in> {9, 10, 11, 12, 13, 32, 160 :: nat})"

definition is_word :: "char \<Rightarrow> bool" where
  "is_word c =
     (let n = of_char c :: nat in
      (48 \<le> n \<and> n \<le> 57) \<or> (65 \<le> n \<and> n \<le> 90) \<or> n = 95 \<or> (97 \<le> n \<and> n \<le> 122))"

text \<open>
  One attempt of \<^verbatim>\<open>/\{\{\s*(\w+)\s*\}\}/\<close> at the start of \<open>s\<close>: the captured key and
  the text after the match. The three classes of the pattern (\<^verbatim>\<open>\s\<close>, \<^verbatim>\<open>\w\<close>, the
  closing brace) are pairwise disjoint, so the greedy runs are the only way to match and
  backtracking finds nothing else.
\<close>

definition match_token :: "string \<Rightarrow> (string \<times> string) option" where
  "match_token s =
     (if take 2 s = ''{{'' then
        (let s1 = dropWhile is_space (drop 2 s);
             k = takeWhile is_word s1;
             s2 = dropWhile is_space (dropWhile is_word s1)
         in if k \<noteq> [] \<and> take 2 s2 = ''}}'' then Some (k, drop 2 s2) else None)
      else None)"

lemma match_token_shorter: "match_token s = Some (k, rest) \<Longrightarrow> length rest < length s"
proof -
  assume m: "match_token s = Some (k, rest)"
  have two: "take 2 s = ''{{''"
    using m by (simp add: match_token_def split: if_splits)
  have "length (take 2 s) = 2"
    by (simp add: two)
  then have len: "2 \<le> length s"
    by simp
  define s1 where "s1 = dropWhile is_space (drop 2 s)"
  define s2 where "s2 = dropWhile is_space (dropWhile is_word s1)"
  have rest: "rest = drop 2 s2"
    using m two by (simp add: match_token_def Let_def s1_def s2_def split: if_splits)
  have "length s2 \<le> length s1"
    unfolding s2_def
    by (meson length_dropWhile_le order_trans)
  moreover have "length s1 \<le> length s - 2"
    unfolding s1_def by (metis length_dropWhile_le length_drop)
  ultimately show ?thesis
    using rest len by simp
qed

text \<open>
  The value of \<^verbatim>\<open>context[key]\<close>. The context is the object literal that \<^verbatim>\<open>create\<close>
  builds: its own properties are the entries of the map, all strings, and it inherits
  the properties of \<^verbatim>\<open>Object.prototype\<close>. So the value is a string, or
  \<^verbatim>\<open>undefined\<close>, or for one of the twelve inherited names a function (for
  \<^verbatim>\<open>__proto__\<close> the prototype object), kept here as the text \<^verbatim>\<open>ToString\<close> gives for
  it in Node.
\<close>

datatype js_value =
    JsUndefined
  | JsString string
  | JsObject string

definition object_prototype_names :: "string list" where
  "object_prototype_names =
     [''constructor'', ''__defineGetter__'', ''__defineSetter__'', ''hasOwnProperty'',
      ''__lookupGetter__'', ''__lookupSetter__'', ''isPrototypeOf'', ''propertyIsEnumerable'',
      ''toString'', ''valueOf'', ''__proto__'', ''toLocaleString'']"

definition get_property :: "(string \<rightharpoonup> string) \<Rightarrow> string \<Rightarrow> js_value" where
  "get_property context k =
     (case context k of
        Some v \<Rightarrow> JsString v
      | None \<Rightarrow>
          if k = ''__proto__'' then JsObject ''[object Object]''
          else if k = ''constructor'' then JsObject ''function Object() { [native code] }''
          else if k \<in> set object_prototype_names then
            JsObject (''function '' @ k @ ''() { [native code] }'')
          else JsUndefined)"

text \<open>\<^verbatim>\<open>if (val)\<close>: the empty string and \<^verbatim>\<open>undefined\<close> are falsy, an object is truthy.\<close>

fun truthy :: "js_value \<Rightarrow> bool" where
  "truthy JsUndefined = False"
| "truthy (JsString v) = (v \<noteq> [])"
| "truthy (JsObject t) = True"

fun to_string :: "js_value \<Rightarrow> string" where
  "to_string JsUndefined = ''undefined''"
| "to_string (JsString v) = v"
| "to_string (JsObject t) = t"

text \<open>
  \<^verbatim>\<open>contents.replaceAll(/\{\{\s*(\w+)\s*\}\}/g, (_, key) => ...)\<close>: the matches are
  taken from left to right, each replaced by the string of what the callback returns;
  the scan goes on after the match. The callback returns \<^verbatim>\<open>context[key]\<close> when it is
  truthy and throws otherwise, and the first throw ends the call.
\<close>

function render :: "(string \<rightharpoonup> string) \<Rightarrow> string \<Rightarrow> error + string" where
  "render context [] = Inr []"
| "render context (c # cs) =
     (case match_token (c # cs) of
        None \<Rightarrow>
          (case render context cs of
             Inl e \<Rightarrow> Inl e
           | Inr out \<Rightarrow> Inr (c # out))
      | Some (k, rest) \<Rightarrow>
          if truthy (get_property context k) then
            (case render context rest of
               Inl e \<Rightarrow> Inl e
             | Inr out \<Rightarrow> Inr (to_string (get_property context k) @ out))
          else Inl (Error (''no template variable '' @ k)))"
  by pat_completeness auto
termination
  by (relation "measure (\<lambda>(context, s). length s)") (auto dest: match_token_shorter)


subsection \<open>Template materialization\<close>

definition endsWith :: "string \<Rightarrow> string \<Rightarrow> bool" where
  "endsWith s t = (length t \<le> length s \<and> drop (length s - length t) s = t)"

text \<open>\<^verbatim>\<open>outputPath.replace(/\.tmpl$/, "")\<close>\<close>

definition stripTmpl :: "string \<Rightarrow> string" where
  "stripTmpl p = (if endsWith p ''.tmpl'' then take (length p - 5) p else p)"

text \<open>
  The template tree as the walk finds it: \<^verbatim>\<open>stat\<close> tells a directory from a file,
  \<^verbatim>\<open>readdir\<close> lists a directory's entries in order, \<^verbatim>\<open>readFile\<close> gives a file's text.
\<close>

datatype template =
    File string
  | Directory "(string \<times> template) list"

text \<open>
  \<^verbatim>\<open>join\<close> of \<^verbatim>\<open>node:path\<close>, and the three injected effects that write: each may reject,
  with the error given (\<open>None\<close> when it succeeds).
\<close>

record create_effects =
  join :: "string \<Rightarrow> string \<Rightarrow> string"
  mkdir :: "string \<Rightarrow> error option"
  copyFile :: "string \<Rightarrow> string \<Rightarrow> error option"
  writeFile :: "string \<Rightarrow> string \<Rightarrow> error option"

text \<open>The calls made on the effects, in order; \<open>Mkdir\<close> is always with \<^verbatim>\<open>{recursive: true}\<close>.\<close>

datatype create_event =
    Mkdir string
  | CopyFile string string
  | WriteFile string string

text \<open>
  \<^verbatim>\<open>recursiveCopyTemplate\<close>, on the node found at \<^verbatim>\<open>join(inputRoot, stepPath)\<close>. The
  result is the calls made and the error thrown, if any. \<open>copyEntries\<close> is the
  \<^verbatim>\<open>for\<close> loop over \<^verbatim>\<open>readdir\<close>.
\<close>

fun recursiveCopyTemplate ::
  "create_effects \<Rightarrow> string \<Rightarrow> string \<Rightarrow> (string \<rightharpoonup> string) \<Rightarrow> string \<Rightarrow> template \<Rightarrow>
     create_event list \<Rightarrow> create_event list \<times> error option"
and copyEntries ::
  "create_effects \<Rightarrow> string \<Rightarrow> string \<Rightarrow> (string \<rightharpoonup> string) \<Rightarrow> string \<Rightarrow>
     (string \<times> template) list \<Rightarrow> create_event list \<Rightarrow> create_event list \<times> error option" where
  "recursiveCopyTemplate E inputRoot outputRoot context stepPath (Directory entries) log =
     (let outputPath = join E outputRoot stepPath;
          log1 = (case mkdir E outputPath of
                    Some e \<Rightarrow> log @ [Mkdir outputPath]
                  | None \<Rightarrow> log @ [Mkdir outputPath])
      in copyEntries E inputRoot outputRoot context stepPath entries log1)"
| "recursiveCopyTemplate E inputRoot outputRoot context stepPath (File contents) log =
     (let templatePath = join E inputRoot stepPath;
          outputPath = join E outputRoot stepPath
      in if endsWith templatePath ''.DS_Store'' then (log, None)
         else if endsWith templatePath ''.tmpl'' then
           (case render context contents of
              Inl e \<Rightarrow> (log, Some e)
            | Inr contents' \<Rightarrow>
                (log @ [WriteFile (stripTmpl outputPath) contents'],
                 writeFile E (stripTmpl outputPath) contents'))
         else (log @ [CopyFile templatePath outputPath], copyFile E templatePath outputPath))"
| "copyEntries E inputRoot outputRoot context stepPath [] log = (log, None)"
| "copyEntries E inputRoot outputRoot context stepPath ((entry, node) # entries) log =
     (case recursiveCopyTemplate E inputRoot outputRoot context (join E stepPath entry) node log of
        (log', Some e) \<Rightarrow> (log', Some e)
      | (log', None) \<Rightarrow> copyEntries E inputRoot outputRoot context stepPath entries log')"


section \<open>Notions the properties are stated with\<close>


text \<open>
  The credential-store writes among the calls of a trace; the poll responses after which
  the loop of \<^verbatim>\<open>login\<close> polls again (\<^verbatim>\<open>pending\<close>, and \<^verbatim>\<open>accepted\<close> with a null key,
  which leaves \<^verbatim>\<open>apiKey === null\<close>); \<open>rounds rid n\<close>, the calls of \<open>n\<close> rounds that
  each poll and then sleep one second; \<open>polled w rq n\<close>, the calls \<^verbatim>\<open>login\<close> has made
  when the poll after \<open>n\<close> such rounds returns; the message of an error.
\<close>

fun is_store_write :: "auth_event \<Rightarrow> bool" where
  "is_store_write (SetObservableApiKey info) = True"
| "is_store_write e = False"

definition store_writes :: "auth_event list \<Rightarrow> auth_event list" where
  "store_writes tr = filter is_store_write tr"

definition keeps_polling :: "poll_response \<Rightarrow> bool" where
  "keeps_polling r = (status r = ''pending'' \<or> (status r = ''accepted'' \<and> apiKey r = Null))"

definition rounds :: "string \<Rightarrow> nat \<Rightarrow> auth_event list" where
  "rounds rid n = concat (replicate n [PostAuthRequestPoll rid, Sleep 1000])"

definition polled :: "auth_world \<Rightarrow> auth_request \<Rightarrow> nat \<Rightarrow> auth_event list" where
  "polled w rq n =
     trace w @
     [Intro '' observable login '', PostAuthRequest [''projects:deploy'', ''projects:create''],
      LogStep (confirmationCode rq), SpinnerStart ''Waiting for confirmation...''] @
     rounds (request_id rq) n @ [PostAuthRequestPoll (request_id rq)]"

fun message :: "error \<Rightarrow> string" where
  "message (Error m) = m"
| "message (CliError m) = m"
| "message (HttpError m c) = m"


text \<open>
  The ancestors of a path are what \<^verbatim>\<open>dirname\<close> gives when applied once or more; the
  path has a writable ancestor when \<^verbatim>\<open>accessSync\<close> accepts one of them.
\<close>

definition writable_ancestor :: "fs \<Rightarrow> string \<Rightarrow> bool" where
  "writable_ancestor F q = (\<exists>j. accessSync F ((dirname F ^^ Suc j) q))"


text \<open>
  The keys of the placeholder tokens of a text, in the order \<^verbatim>\<open>replaceAll\<close> finds them
  (the same scan as \<open>render\<close>, without the context); a key is unresolved when
  \<^verbatim>\<open>context[key]\<close> is falsy, which is when the callback throws.
\<close>

function tokens :: "string \<Rightarrow> string list" where
  "tokens [] = []"
| "tokens (c # cs) =
     (case match_token (c # cs) of
        None \<Rightarrow> tokens cs
      | Some (k, rest) \<Rightarrow> k # tokens rest)"
  by pat_completeness auto
termination
  by (relation "measure length") (auto dest: match_token_shorter)

definition unresolved :: "(string \<rightharpoonup> string) \<Rightarrow> string \<Rightarrow> bool" where
  "unresolved context k = (\<not> truthy (get_property context k))"


text \<open>Concrete collaborators, on which the properties are instantiated.\<close>

definition example_env :: auth_env where
  "example_env =
     \<lparr>authRequest = Inr \<lparr>request_id = ''r1'', confirmationCode = ''ABCD''\<rparr>,
      currentUser = (\<lambda>k. if k = ''secret''
         then Inr \<lparr>account_name = Some ''Ada'', account_login = ''ada'', workspaces = []\<rparr>
         else Inl (HttpError ''Unauthorized'' 401)),
      storedApiKey = Inr \<lparr>source = ''file'', envVar = [], key = ''stale''\<rparr>,
      hostname = ''observablehq.com'',
      loginInstruction = ''observable login''\<rparr>"

definition pending :: poll_response where
  "pending = \<lparr>status = ''pending'', apiKey = Null\<rparr>"

definition example_world :: "poll_response \<Rightarrow> auth_world" where
  "example_world t =
     \<lparr>store = None, polls = [Inr pending, Inr pending, Inr t, Inr pending], trace = []\<rparr>"

definition example_fs :: "bool \<Rightarrow> fs" where
  "example_fs w =
     \<lparr>normalize = (\<lambda>p. if p = ''./site/'' then ''site/'' else p),
      dirname = (\<lambda>p. if p = ''/srv/www/site'' then ''/srv/www''
                      else if p = ''/srv/www'' then ''/srv''
                      else if p = ''/srv'' then ''/''
                      else if p = ''/'' then ''/'' else ''.''),
      accessSync = (\<lambda>d. w \<and> d = ''.''),
      existsSync = (\<lambda>p. p = ''site/'' \<or> p = ''/srv''),
      isDirectory = (\<lambda>p. p = ''site/'' \<or> p = ''/srv''),
      readdirSync = (\<lambda>p. if p = ''site/'' then Inr [''index.md''] else Inr [])\<rparr>"

definition example_effects :: "(string \<Rightarrow> error option) \<Rightarrow> create_effects" where
  "example_effects f =
     \<lparr>join = (\<lambda>a b. if b = ''.'' then a else if a = ''.'' then b else a @ ''/'' @ b),
      mkdir = f,
      copyFile = (\<lambda>a b. None),
      writeFile = (\<lambda>a b. None)\<rparr>"

definition example_context :: "string \<rightharpoonup> string" where
  "example_context = [''projectTitle'' \<mapsto> ''hello-framework'', ''runCommand'' \<mapsto> []]"


section \<open>Properties of observableApiAuth.ts\<close>


text \<open>
  The loop passes over every response that keeps it polling, with one poll and one sleep
  each, and makes no store write; \<open>login_terminal\<close> is \<^verbatim>\<open>login\<close> at the first
  response that ends the loop.
\<close>

lemma rounds_Suc: "rounds rid (Suc n) = [PostAuthRequestPoll rid, Sleep 1000] @ rounds rid n"
  by (simp add: rounds_def)

lemma poll_loop_keeps_polling:
  "list_all keeps_polling pre \<Longrightarrow>
   poll_loop rid (map Inr pre @ rest) tr = poll_loop rid rest (tr @ rounds rid (length pre))"
proof (induction pre arbitrary: tr)
  case Nil
  then show ?case by (simp add: rounds_def)
next
  case (Cons r pre)
  then show ?case
    by (auto simp: keeps_polling_def rounds_Suc)
qed

lemma pending_keeps_polling:
  "list_all (\<lambda>r. status r = ''pending'') pre \<Longrightarrow> list_all keeps_polling pre"
  by (induction pre) (auto simp: keeps_polling_def)

lemma poll_loop_trace:
  "poll_loop rid ps tr = (res, ps', tr') \<Longrightarrow>
   \<exists>new. tr' = tr @ new \<and> store_writes new = []"
proof (induction rid ps tr rule: poll_loop.induct)
  case (1 rid tr)
  then show ?case by (simp add: store_writes_def)
next
  case (2 rid e ps tr)
  then show ?case by (auto simp: store_writes_def)
next
  case (3 rid requestPoll ps tr)
  then show ?case
    by (auto simp: store_writes_def Let_def split: if_splits api_key_field.splits)
qed

lemma poll_loop_key_from_poll:
  "poll_loop rid ps tr = (Some (Inr (ApiKeyObj i k)), ps', tr') \<Longrightarrow>
   \<exists>r. Inr r \<in> set ps \<and> status r = ''accepted'' \<and> apiKey r = ApiKeyObj i k"
proof (induction rid ps tr rule: poll_loop.induct)
  case (1 rid tr)
  then show ?case by simp
next
  case (2 rid e ps tr)
  then show ?case by simp
next
  case (3 rid requestPoll ps tr)
  then show ?case
    by (auto simp: Let_def split: if_splits api_key_field.splits)
qed

lemma poll_loop_terminal:
  assumes "list_all keeps_polling pre"
  shows
    "poll_loop rid (map Inr pre @ Inr t # rest) tr =
       (if status t = ''pending'' \<or> status t = ''accepted'' \<and> apiKey t = Null then
          poll_loop rid rest (tr @ rounds rid (Suc (length pre)))
        else
          (if status t = ''accepted'' then Some (Inr (apiKey t))
           else if status t = ''expired'' then Some (Inl (CliError ''That confirmation code expired.''))
           else if status t = ''consumed'' then
             Some (Inl (CliError ''That confirmation code has already been used.''))
           else Some (Inl (CliError (''Received an unknown polling status '' @ status t @ ''.''))),
           rest,
           tr @ rounds rid (length pre) @
             [PostAuthRequestPoll rid,
              if status t = ''accepted'' then Sleep 1000
              else SpinnerStop ''Failed to confirm code.'' (Some 2)]))"
proof -
  have "rounds rid (Suc n) = rounds rid n @ [PostAuthRequestPoll rid, Sleep 1000]" for n
    by (induction n) (simp_all add: rounds_def)
  then show ?thesis
    using assms
    by (simp add: poll_loop_keeps_polling Let_def split: api_key_field.splits)
qed

lemma login_terminal:
  assumes "authRequest E = Inr rq"
    and "list_all keeps_polling pre"
    and "polls w = map Inr pre @ Inr t # rest"
    and "status t \<noteq> ''pending''"
    and "status t = ''accepted'' \<longrightarrow> apiKey t = ApiKeyObj i k"
  shows
    "login E w =
       (if status t = ''accepted'' then
          login_accepted E i k (w\<lparr>polls := rest, trace := polled w rq (length pre) @ [Sleep 1000]\<rparr>)
        else
          (Some (Inl (CliError
             (if status t = ''expired'' then ''That confirmation code expired.''
              else if status t = ''consumed'' then ''That confirmation code has already been used.''
              else ''Received an unknown polling status '' @ status t @ ''.''))),
           w\<lparr>polls := rest,
             trace := polled w rq (length pre) @ [SpinnerStop ''Failed to confirm code.'' (Some 2)]\<rparr>))"
  using assms(1,3,4,5)
  by (simp add: login_def Let_def poll_loop_terminal [OF assms(2)] polled_def)


text \<open>
  Claim C1. The poll responses are any number of \<^verbatim>\<open>pending\<close> ones, then a response
  \<open>t\<close> with a terminal status, then whatever would come after. Up to the poll that
  returns \<open>t\<close>, \<^verbatim>\<open>login\<close> has polled once per \<^verbatim>\<open>pending\<close> response and slept exactly
  one interval of 1000 ms after each of them (\<open>polled\<close>, built from \<open>rounds\<close>). It
  never polls again: the responses after \<open>t\<close> are left as they were. Its outcome is
  the one of the status of \<open>t\<close>: on \<^verbatim>\<open>accepted\<close> with the returned key it goes on
  with that key (\<open>login_accepted\<close>, which stores it first); on \<^verbatim>\<open>expired\<close>,
  \<^verbatim>\<open>consumed\<close> and every other status it stops the spinner as failed and throws the
  error of that status.
\<close>

theorem login_pending_then_terminal:
  assumes "authRequest E = Inr rq"
    and "list_all (\<lambda>r. status r = ''pending'') pre"
    and "polls w = map Inr pre @ Inr t # rest"
  shows
    "(status t = ''accepted'' \<and> apiKey t = ApiKeyObj i k \<longrightarrow>
        login E w =
          login_accepted E i k (w\<lparr>polls := rest, trace := polled w rq (length pre) @ [Sleep 1000]\<rparr>)) \<and>
     (status t = ''expired'' \<longrightarrow>
        login E w =
          (Some (Inl (CliError ''That confirmation code expired.'')),
           w\<lparr>polls := rest,
             trace := polled w rq (length pre) @ [SpinnerStop ''Failed to confirm code.'' (Some 2)]\<rparr>)) \<and>
     (status t = ''consumed'' \<longrightarrow>
        login E w =
          (Some (Inl (CliError ''That confirmation code has already been used.'')),
           w\<lparr>polls := rest,
             trace := polled w rq (length pre) @ [SpinnerStop ''Failed to confirm code.'' (Some 2)]\<rparr>)) \<and>
     (status t \<notin> {''pending'', ''accepted'', ''expired'', ''consumed''} \<longrightarrow>
        login E w =
          (Some (Inl (CliError (''Received an unknown polling status '' @ status t @ ''.''))),
           w\<lparr>polls := rest,
             trace := polled w rq (length pre) @ [SpinnerStop ''Failed to confirm code.'' (Some 2)]\<rparr>))"
  using login_terminal [OF assms(1) pending_keeps_polling [OF assms(2)] assms(3), of i k]
  by auto

theorem login_pending_then_terminal_witness:
  "login example_env (example_world \<lparr>status = ''expired'', apiKey = Null\<rparr>) =
     (Some (Inl (CliError ''That confirmation code expired.'')),
      \<lparr>store = None, polls = [Inr pending],
       trace = [Intro '' observable login '',
                PostAuthRequest [''projects:deploy'', ''projects:create''],
                LogStep ''ABCD'', SpinnerStart ''Waiting for confirmation...'',
                PostAuthRequestPoll ''r1'', Sleep 1000,
                PostAuthRequestPoll ''r1'', Sleep 1000,
                PostAuthRequestPoll ''r1'',
                SpinnerStop ''Failed to confirm code.'' (Some 2)]\<rparr>) \<and>
   login example_env (example_world \<lparr>status = ''accepted'', apiKey = ApiKeyObj ''id7'' ''secret''\<rparr>) =
     (Some (Inr ()),
      \<lparr>store = Some (''id7'', ''secret''), polls = [Inr pending],
       trace = [Intro '' observable login '',
                PostAuthRequest [''projects:deploy'', ''projects:create''],
                LogStep ''ABCD'', SpinnerStart ''Waiting for confirmation...'',
                PostAuthRequestPoll ''r1'', Sleep 1000,
                PostAuthRequestPoll ''r1'', Sleep 1000,
                PostAuthRequestPoll ''r1'', Sleep 1000,
                SetObservableApiKey (Some (''id7'', ''secret'')),
                ClientSetApiKey ''login'' ''secret'', GetCurrentUser,
                SpinnerStop ''You are logged into observablehq.com as Ada (@ada).'' None,
                LogWarn ''Warning: You don't have any workspaces to deploy to.'',
                Outro ''Happy visualizing!'']\<rparr>)"
  using
    login_pending_then_terminal [of example_env "\<lparr>request_id = ''r1'', confirmationCode = ''ABCD''\<rparr>"
      "[pending, pending]" "example_world \<lparr>status = ''expired'', apiKey = Null\<rparr>"
      "\<lparr>status = ''expired'', apiKey = Null\<rparr>" "[Inr pending]"]
    login_pending_then_terminal [of example_env "\<lparr>request_id = ''r1'', confirmationCode = ''ABCD''\<rparr>"
      "[pending, pending]" "example_world \<lparr>status = ''accepted'', apiKey = ApiKeyObj ''id7'' ''secret''\<rparr>"
      "\<lparr>status = ''accepted'', apiKey = ApiKeyObj ''id7'' ''secret''\<rparr>" "[Inr pending]" "''id7''" "''secret''"]
  by (simp add: example_env_def example_world_def pending_def polled_def rounds_def
      login_accepted_def setObservableApiKey_def formatUser_def)


text \<open>
  An \<^verbatim>\<open>accepted\<close> response without a key: with \<^verbatim>\<open>apiKey\<close> null the loop treats it
  as it treats \<^verbatim>\<open>pending\<close>; with \<^verbatim>\<open>apiKey\<close> absent the loop ends and \<^verbatim>\<open>login\<close>
  throws. While every response keeps the loop polling, \<^verbatim>\<open>login\<close> does not return.
\<close>

lemma login_accepted_null_key:
  assumes "authRequest E = Inr rq" "status t = ''accepted''" "apiKey t = Null"
  shows "login E (w\<lparr>polls := Inr t # rest\<rparr>) =
     login E (w\<lparr>polls := Inr \<lparr>status = ''pending'', apiKey = Null\<rparr> # rest\<rparr>)"
  using assms
  by (simp add: login_def Let_def split: prod.splits option.splits sum.splits api_key_field.splits)

lemma login_accepted_undefined_key:
  assumes "authRequest E = Inr rq"
    and "list_all keeps_polling pre"
    and "polls w = map Inr pre @ Inr t # rest"
    and "status t = ''accepted''" "apiKey t = Undefined"
  shows "login E w =
     (Some (Inl (CliError ''No API key returned from server.'')),
      w\<lparr>polls := rest, trace := polled w rq (length pre) @ [Sleep 1000]\<rparr>)"
  using assms(1,3,4,5)
  by (simp add: login_def Let_def poll_loop_terminal [OF assms(2)] polled_def)

lemma login_only_pending:
  assumes "authRequest E = Inr rq" and "list_all keeps_polling pre" and "polls w = map Inr pre"
  shows "fst (login E w) = None"
  using assms(1,3) poll_loop_keeps_polling [OF assms(2), of "request_id rq" "[]"]
  by (simp add: login_def Let_def)

lemma login_accepted_writes:
  "store_writes (trace (snd (login_accepted E i k w))) =
     store_writes (trace w) @ [SetObservableApiKey (Some (i, k))] \<and>
   store (snd (login_accepted E i k w)) = Some (i, k)"
  by (simp add: login_accepted_def setObservableApiKey_def store_writes_def Let_def
      split: sum.splits)

lemma store_writes_rounds: "store_writes (rounds rid n) = []"
  by (induction n) (simp_all add: rounds_def store_writes_def)

lemma store_writes_polled: "store_writes (polled w rq n @ [e]) = store_writes (trace w) @ store_writes [e]"
  using store_writes_rounds [of "request_id rq" n]
  by (simp add: polled_def store_writes_def)

lemma login_writes_general:
  "store_writes (trace (snd (login E w))) = store_writes (trace w) \<or>
   (\<exists>i k r. Inr r \<in> set (polls w) \<and> status r = ''accepted'' \<and> apiKey r = ApiKeyObj i k \<and>
      store_writes (trace (snd (login E w))) =
        store_writes (trace w) @ [SetObservableApiKey (Some (i, k))])"
proof (cases "authRequest E")
  case (Inl e)
  then show ?thesis
    by (simp add: login_def store_writes_def)
next
  case (Inr rq)
  define tr1 where "tr1 = trace w @
     [Intro '' observable login '', PostAuthRequest [''projects:deploy'', ''projects:create''],
      LogStep (confirmationCode rq), SpinnerStart ''Waiting for confirmation...'']"
  obtain res ps' tr2 where loop: "poll_loop (request_id rq) (polls w) tr1 = (res, ps', tr2)"
    by (cases "poll_loop (request_id rq) (polls w) tr1") auto
  from poll_loop_trace [OF loop] obtain new where
    new: "tr2 = tr1 @ new" "store_writes new = []" by blast
  have w2: "store_writes tr2 = store_writes (trace w)"
    using new by (simp add: tr1_def store_writes_def)
  show ?thesis
  proof (cases "\<exists>i k. res = Some (Inr (ApiKeyObj i k))")
    case True
    then obtain i k where res: "res = Some (Inr (ApiKeyObj i k))" by blast
    from poll_loop_key_from_poll [OF loop [unfolded res]] obtain r where
      r: "Inr r \<in> set (polls w)" "status r = ''accepted''" "apiKey r = ApiKeyObj i k" by blast
    have "login E w = login_accepted E i k (w\<lparr>polls := ps', trace := tr2\<rparr>)"
      using Inr loop res by (simp add: login_def Let_def tr1_def)
    then show ?thesis
      using r w2 login_accepted_writes [of E i k "w\<lparr>polls := ps', trace := tr2\<rparr>"] by auto
  next
    case False
    then have "snd (login E w) = w\<lparr>polls := ps', trace := tr2\<rparr>"
      using Inr loop
      by (auto simp: login_def Let_def tr1_def split: option.splits sum.splits api_key_field.splits)
    then show ?thesis using w2 by simp
  qed
qed


text \<open>
  Claim C2. When the responses are \<^verbatim>\<open>pending\<close> ones followed by \<^verbatim>\<open>accepted\<close> with
  the pair \<open>(i, k)\<close>, \<^verbatim>\<open>login\<close> adds exactly one credential-store write to the calls
  made, the write of that pair. When they are followed by a response whose status is
  \<^verbatim>\<open>expired\<close>, \<^verbatim>\<open>consumed\<close> or unknown, it adds no write. And for every sequence of
  poll results whatever: either no write is added, or exactly one is, of a pair that an
  \<^verbatim>\<open>accepted\<close> response of the sequence carries.
\<close>

theorem login_store_writes:
  "(authRequest E = Inr rq \<and> list_all (\<lambda>r. status r = ''pending'') pre \<and>
      polls w = map Inr pre @ Inr t # rest \<longrightarrow>
      (status t = ''accepted'' \<and> apiKey t = ApiKeyObj i k \<longrightarrow>
         store_writes (trace (snd (login E w))) =
           store_writes (trace w) @ [SetObservableApiKey (Some (i, k))]) \<and>
      (status t \<noteq> ''pending'' \<and> status t \<noteq> ''accepted'' \<longrightarrow>
         store_writes (trace (snd (login E w))) = store_writes (trace w))) \<and>
   (store_writes (trace (snd (login E w))) = store_writes (trace w) \<or>
    (\<exists>i' k' r. Inr r \<in> set (polls w) \<and> status r = ''accepted'' \<and> apiKey r = ApiKeyObj i' k' \<and>
       store_writes (trace (snd (login E w))) =
         store_writes (trace w) @ [SetObservableApiKey (Some (i', k'))]))"
proof -
  have "store_writes (trace (snd (login E w))) =
           store_writes (trace w) @ [SetObservableApiKey (Some (i, k))]"
    if "authRequest E = Inr rq" "list_all (\<lambda>r. status r = ''pending'') pre"
      "polls w = map Inr pre @ Inr t # rest" "status t = ''accepted''" "apiKey t = ApiKeyObj i k"
    using login_terminal [OF that(1) pending_keeps_polling [OF that(2)] that(3), of i k] that(4,5)
      login_accepted_writes [of E i k "w\<lparr>polls := rest, trace := polled w rq (length pre) @ [Sleep 1000]\<rparr>"]
      store_writes_polled [of w rq "length pre" "Sleep 1000"]
    by (simp add: store_writes_def)
  moreover have "store_writes (trace (snd (login E w))) = store_writes (trace w)"
    if "authRequest E = Inr rq" "list_all (\<lambda>r. status r = ''pending'') pre"
      "polls w = map Inr pre @ Inr t # rest" "status t \<noteq> ''pending''" "status t \<noteq> ''accepted''"
    using login_terminal [OF that(1) pending_keeps_polling [OF that(2)] that(3), of i k] that(4,5)
      store_writes_polled [of w rq "length pre" "SpinnerStop ''Failed to confirm code.'' (Some 2)"]
    by (simp add: store_writes_def)
  ultimately show ?thesis
    using login_writes_general [of E w] by blast
qed

theorem login_store_writes_witness:
  "store_writes (trace (snd (login example_env
       (example_world \<lparr>status = ''accepted'', apiKey = ApiKeyObj ''id7'' ''secret''\<rparr>)))) =
     [SetObservableApiKey (Some (''id7'', ''secret''))] \<and>
   store_writes (trace (snd (login example_env
       (example_world \<lparr>status = ''consumed'', apiKey = Null\<rparr>)))) = []"
  using
    login_store_writes [of example_env "\<lparr>request_id = ''r1'', confirmationCode = ''ABCD''\<rparr>"
      "[pending, pending]" "example_world \<lparr>status = ''accepted'', apiKey = ApiKeyObj ''id7'' ''secret''\<rparr>"
      "\<lparr>status = ''accepted'', apiKey = ApiKeyObj ''id7'' ''secret''\<rparr>" "[Inr pending]" "''id7''" "''secret''"]
    login_store_writes [of example_env "\<lparr>request_id = ''r1'', confirmationCode = ''ABCD''\<rparr>"
      "[pending, pending]" "example_world \<lparr>status = ''consumed'', apiKey = Null\<rparr>"
      "\<lparr>status = ''consumed'', apiKey = Null\<rparr>" "[Inr pending]"]
  by (simp add: example_env_def example_world_def pending_def store_writes_def)


text \<open>
  Claim C7. When \<^verbatim>\<open>login\<close> polls a response whose status is none of \<^verbatim>\<open>pending\<close>,
  \<^verbatim>\<open>accepted\<close>, \<^verbatim>\<open>expired\<close>, \<^verbatim>\<open>consumed\<close> (so every response before it let the loop
  go on), it fails with an error whose message is
  \<^verbatim>\<open>Received an unknown polling status <status>.\<close>, which contains the raw status
  string.
\<close>

theorem login_unknown_status:
  assumes "authRequest E = Inr rq"
    and "list_all keeps_polling pre"
    and "polls w = map Inr pre @ Inr t # rest"
    and "status t \<notin> {''pending'', ''accepted'', ''expired'', ''consumed''}"
  shows
    "\<exists>e. fst (login E w) = Some (Inl e) \<and>
         message e = ''Received an unknown polling status '' @ status t @ ''.'' \<and>
         sublist (status t) (message e)"
proof -
  have "fst (login E w) =
      Some (Inl (CliError (''Received an unknown polling status '' @ status t @ ''.'')))"
    using login_terminal [OF assms(1,2,3)] assms(4) by simp
  moreover have "sublist (status t) (''Received an unknown polling status '' @ status t @ ''.'')"
    by (rule sublist_appendI)
  ultimately show ?thesis by simp
qed

theorem login_unknown_status_witness:
  "\<exists>e. fst (login example_env (example_world \<lparr>status = ''revoked'', apiKey = Null\<rparr>)) = Some (Inl e) \<and>
       message e = ''Received an unknown polling status revoked.'' \<and>
       sublist ''revoked'' (message e)"
  using
    login_unknown_status [of example_env "\<lparr>request_id = ''r1'', confirmationCode = ''ABCD''\<rparr>"
      "[pending, pending]" "example_world \<lparr>status = ''revoked'', apiKey = Null\<rparr>"
      "\<lparr>status = ''revoked'', apiKey = Null\<rparr>" "[Inr pending]"]
  by (simp add: example_env_def example_world_def pending_def keeps_polling_def)


text \<open>
  Claim C8. An error of loading the credential is thrown as it is. When the credential
  \<open>a\<close> is loaded and the user fetch fails with \<open>err\<close>: if \<open>err\<close> is an HTTP error of
  status 401, \<^verbatim>\<open>whoami\<close> returns normally and logs exactly one message, the one that
  names the environment variable when the source of \<open>a\<close> is \<^verbatim>\<open>env\<close>, the one that
  says to log in again when it is \<^verbatim>\<open>file\<close>, the generic one otherwise; if \<open>err\<close> is
  anything else, \<^verbatim>\<open>whoami\<close> throws \<open>err\<close> itself and logs nothing.
\<close>

theorem whoami_unauthorized:
  "(storedApiKey E = Inl e \<longrightarrow> whoami E tr = (Inl e, tr)) \<and>
   (storedApiKey E = Inr a \<and> currentUser E (key a) = Inl err \<longrightarrow>
     (err = HttpError m 401 \<longrightarrow>
        whoami E tr =
          (Inr (),
           tr @ [GetCurrentUser,
                 LoggerLog
                   (if source a = ''env'' then
                      ''Your API key is invalid. Check the value of the '' @ envVar a @
                      '' environment variable.''
                    else if source a = ''file'' then
                      ''Your API key is invalid. Run '' @ loginInstruction E @ '' to log in again.''
                    else ''Your API key is invalid.'')])) \<and>
     ((\<forall>m'. err \<noteq> HttpError m' 401) \<longrightarrow> whoami E tr = (Inl err, tr @ [GetCurrentUser])))"
  by (cases err) (auto simp: whoami_def)

theorem whoami_unauthorized_witness:
  "whoami example_env [] =
     (Inr (), [GetCurrentUser,
               LoggerLog ''Your API key is invalid. Run observable login to log in again.''])"
  using whoami_unauthorized [where E = example_env
      and a = "\<lparr>source = ''file'', envVar = [], key = ''stale''\<rparr>"
      and err = "HttpError ''Unauthorized'' 401" and m = "''Unauthorized''" and tr = "[]"]
  by (simp add: example_env_def)


text \<open>
  Claim C9. \<^verbatim>\<open>logout\<close> makes exactly one store write, of null, whatever the store
  holds; it returns normally for every world, one with an empty store included; and the
  store after two logouts is the store after one.
\<close>

theorem logout_erases_once:
  "logout w = (Inr (), w\<lparr>store := None, trace := trace w @ [SetObservableApiKey None]\<rparr>) \<and>
   store_writes (trace (snd (logout w))) = store_writes (trace w) @ [SetObservableApiKey None] \<and>
   store (snd (logout (snd (logout w)))) = store (snd (logout w))"
  by (simp add: logout_def setObservableApiKey_def store_writes_def)

theorem logout_erases_once_witness:
  "logout \<lparr>store = None, polls = [], trace = []\<rparr> =
     (Inr (), \<lparr>store = None, polls = [], trace = [SetObservableApiKey None]\<rparr>) \<and>
   snd (logout (snd (logout \<lparr>store = Some (''id7'', ''secret''), polls = [], trace = []\<rparr>))) =
     \<lparr>store = None, polls = [], trace = [SetObservableApiKey None, SetObservableApiKey None]\<rparr>"
  using logout_erases_once [of "\<lparr>store = None, polls = [], trace = []\<rparr>"]
    logout_erases_once [of "\<lparr>store = Some (''id7'', ''secret''), polls = [], trace = []\<rparr>"]
    logout_erases_once [of "\<lparr>store = None, polls = [], trace = [SetObservableApiKey None]\<rparr>"]
  by simp


section \<open>Properties of create.ts\<close>

subsection \<open>Path validation\<close>

lemma funpow_fixed: "f x = x \<Longrightarrow> (f ^^ n) x = x"
  by (induction n) simp_all

lemma canWriteRecursive_fixed:
  "(dirname F ^^ Suc n) p = (dirname F ^^ n) p \<Longrightarrow>
   canWriteRecursive F p = Some (\<exists>j. accessSync F ((dirname F ^^ Suc j) p))"
proof (induction n arbitrary: p)
  case 0
  then have stay: "dirname F p = p" by simp
  have "(dirname F ^^ Suc j) p = p" for j
    using funpow_fixed [of "dirname F" p "Suc j"] stay by simp
  then show ?case
    using stay by (subst canWriteRecursive.simps) (simp add: Let_def)
next
  case (Suc n)
  let ?d = "dirname F p"
  show ?case
  proof (cases "accessSync F ?d")
    case True
    then have "\<exists>j. accessSync F ((dirname F ^^ Suc j) p)"
      by (intro exI [of _ 0]) simp
    then show ?thesis
      using True by (subst canWriteRecursive.simps) (simp add: Let_def)
  next
    case False
    show ?thesis
    proof (cases "?d = p")
      case True
      have "(dirname F ^^ Suc j) p = p" for j
        using funpow_fixed [of "dirname F" p "Suc j"] True by simp
      then show ?thesis
        using True False by (subst canWriteRecursive.simps) (simp add: Let_def)
    next
      case ne: False
      have "(dirname F ^^ Suc n) ?d = (dirname F ^^ n) ?d"
        using Suc.prems by (simp add: funpow_swap1)
      from Suc.IH [OF this]
      have rec: "canWriteRecursive F ?d = Some (\<exists>j. accessSync F ((dirname F ^^ Suc j) ?d))" .
      have "(\<exists>j. accessSync F ((dirname F ^^ Suc j) ?d)) = (\<exists>j. accessSync F ((dirname F ^^ Suc j) p))"
      proof
        assume "\<exists>j. accessSync F ((dirname F ^^ Suc j) ?d)"
        then obtain j where "accessSync F ((dirname F ^^ Suc j) ?d)" ..
        then have "accessSync F ((dirname F ^^ Suc (Suc j)) p)"
          by (simp add: funpow_swap1)
        then show "\<exists>j. accessSync F ((dirname F ^^ Suc j) p)" ..
      next
        assume "\<exists>j. accessSync F ((dirname F ^^ Suc j) p)"
        then obtain j where j: "accessSync F ((dirname F ^^ Suc j) p)" ..
        then have "j \<noteq> 0" using False by (cases j) auto
        then obtain j' where "j = Suc j'" by (cases j) auto
        with j have "accessSync F ((dirname F ^^ Suc j') ?d)"
          by (simp add: funpow_swap1)
        then show "\<exists>j. accessSync F ((dirname F ^^ Suc j) ?d)" ..
      qed
      then show ?thesis
        using ne False rec by (subst canWriteRecursive.simps) (simp add: Let_def)
    qed
  qed
qed


text \<open>
  Claim C4. \<^verbatim>\<open>validateRootPath\<close> accepts the empty input, which stands for the default
  value, whatever the file system is. For any other input, whose \<^verbatim>\<open>dirname\<close> chain
  reaches its fixed point, the checks are made on the normalized path in this order: no
  writable ancestor gives \<^verbatim>\<open>Path is not writable.\<close>; else a path that does not exist
  is accepted; else one that is not a directory gives \<^verbatim>\<open>File already exists.\<close>; else
  a directory with an entry gives \<^verbatim>\<open>Directory is not empty.\<close>, and an empty one is
  accepted.
\<close>

theorem validateRootPath_cases:
  "validateRootPath F [] = Some (Inr None) \<and>
   (p \<noteq> [] \<and> (dirname F ^^ Suc n) (normalize F p) = (dirname F ^^ n) (normalize F p) \<longrightarrow>
     (\<not> writable_ancestor F (normalize F p) \<longrightarrow>
        validateRootPath F p = Some (Inr (Some ''Path is not writable.''))) \<and>
     (writable_ancestor F (normalize F p) \<and> \<not> existsSync F (normalize F p) \<longrightarrow>
        validateRootPath F p = Some (Inr None)) \<and>
     (writable_ancestor F (normalize F p) \<and> existsSync F (normalize F p) \<and>
      \<not> isDirectory F (normalize F p) \<longrightarrow>
        validateRootPath F p = Some (Inr (Some ''File already exists.''))) \<and>
     (writable_ancestor F (normalize F p) \<and> existsSync F (normalize F p) \<and>
      isDirectory F (normalize F p) \<and> readdirSync F (normalize F p) = Inr (e # es) \<longrightarrow>
        validateRootPath F p = Some (Inr (Some ''Directory is not empty.''))) \<and>
     (writable_ancestor F (normalize F p) \<and> existsSync F (normalize F p) \<and>
      isDirectory F (normalize F p) \<and> readdirSync F (normalize F p) = Inr [] \<longrightarrow>
        validateRootPath F p = Some (Inr None)))"
proof -
  have "validateRootPath F [] = Some (Inr None)"
    by (simp add: validateRootPath_def)
  moreover have "canWriteRecursive F (normalize F p) = Some (writable_ancestor F (normalize F p))"
    if "(dirname F ^^ Suc n) (normalize F p) = (dirname F ^^ n) (normalize F p)"
    using canWriteRecursive_fixed [OF that] by (simp add: writable_ancestor_def)
  ultimately show ?thesis
    by (simp add: validateRootPath_def Let_def)
qed

theorem validateRootPath_cases_witness:
  "validateRootPath (example_fs True) ''./site/'' = Some (Inr (Some ''Directory is not empty.'')) \<and>
   validateRootPath (example_fs False) ''/srv/www/site'' = Some (Inr (Some ''Path is not writable.'')) \<and>
   validateRootPath (example_fs True) ''docs'' = Some (Inr None)"
proof -
  have a: "writable_ancestor (example_fs True) ''site/''"
    unfolding writable_ancestor_def by (rule exI [of _ 0]) (simp add: example_fs_def)
  have a': "writable_ancestor (example_fs True) ''docs''"
    unfolding writable_ancestor_def by (rule exI [of _ 0]) (simp add: example_fs_def)
  have b: "\<not> writable_ancestor (example_fs False) q" for q
    by (simp add: writable_ancestor_def example_fs_def)
  show ?thesis
    using
      validateRootPath_cases [where F = "example_fs True" and n = 1 and p = "''./site/''"
        and e = "''index.md''" and es = "[]"]
      validateRootPath_cases [where F = "example_fs False" and n = 3 and p = "''/srv/www/site''"]
      validateRootPath_cases [where F = "example_fs True" and n = 1 and p = "''docs''"]
      a a' b
    by (simp add: example_fs_def numeral_3_eq_3)
qed


subsection \<open>Placeholder substitution and the walk\<close>


text \<open>
  \<open>match_token\<close> matches exactly the texts of the shape
  \<^verbatim>\<open>{{\<close> white space, a non-empty word, white space, \<^verbatim>\<open>}}\<close>
  (\<open>match_token_shape\<close>, \<open>match_token_decompose\<close>), and a match never reaches
  into a token that follows, so that rendering splits at the start of a token
  (\<open>render_append\<close>).
\<close>

lemma word_not_space: "is_word c \<Longrightarrow> \<not> is_space c"
  by (auto simp: is_word_def is_space_def Let_def)

lemma brace_classes:
  "\<not> is_word CHR ''{''" "\<not> is_space CHR ''{''" "\<not> is_word CHR ''}''" "\<not> is_space CHR ''}''"
  by (simp_all add: is_word_def is_space_def)

lemma dropWhile_append_stop:
  assumes "dropWhile P xs \<noteq> [] \<or> ys = [] \<or> \<not> P (hd ys)"
  shows "dropWhile P (xs @ ys) = dropWhile P xs @ ys"
proof (cases "dropWhile P xs = []")
  case True
  then have all: "\<forall>x\<in>set xs. P x" by (simp add: dropWhile_eq_Nil_conv)
  have "dropWhile P ys = ys"
    using assms True by (cases ys) auto
  then show ?thesis
    using all True by (simp add: dropWhile_append2)
next
  case False
  then obtain x where "x \<in> set xs" "\<not> P x"
    by (auto simp: dropWhile_eq_Nil_conv)
  then show ?thesis by (simp add: dropWhile_append1)
qed

lemma takeWhile_append_stop:
  assumes "dropWhile P xs \<noteq> [] \<or> ys = [] \<or> \<not> P (hd ys)"
  shows "takeWhile P (xs @ ys) = takeWhile P xs"
proof (cases "dropWhile P xs = []")
  case True
  then have all: "\<forall>x\<in>set xs. P x" by (simp add: dropWhile_eq_Nil_conv)
  have e: "takeWhile P ys = []"
    using assms True by (cases ys) auto
  have whole: "takeWhile P xs = xs"
    using all by simp
  have "takeWhile P (xs @ ys) = xs @ takeWhile P ys"
    using all by (simp add: takeWhile_append2)
  then show ?thesis
    unfolding whole e by simp
next
  case False
  then obtain x where "x \<in> set xs" "\<not> P x"
    by (auto simp: dropWhile_eq_Nil_conv)
  then show ?thesis by (simp add: takeWhile_append1)
qed

lemma match_token_shape:
  assumes "list_all is_space ws1" "list_all is_word k" "k \<noteq> []" "list_all is_space ws2"
  shows "match_token (''{{'' @ ws1 @ k @ ws2 @ ''}}'' @ rest) = Some (k, rest)"
proof -
  obtain x k' where k: "k = x # k'" using assms(3) by (cases k) auto
  have x: "is_word x" "\<not> is_space x"
    using assms(2) k word_not_space by auto
  have d1: "dropWhile is_space (ws1 @ k @ ws2 @ ''}}'' @ rest) = k @ ws2 @ ''}}'' @ rest"
    using assms(1) x k by (simp add: list_all_iff dropWhile_append2)
  have t: "takeWhile is_word (k @ ws2 @ ''}}'' @ rest) = k"
  proof -
    have "takeWhile is_word (ws2 @ ''}}'' @ rest) = []"
      using assms(4) word_not_space brace_classes by (cases ws2) auto
    then show ?thesis
      using assms(2) by (simp add: list_all_iff takeWhile_append2)
  qed
  have d2: "dropWhile is_word (k @ ws2 @ ''}}'' @ rest) = ws2 @ ''}}'' @ rest"
  proof -
    have "dropWhile is_word (ws2 @ ''}}'' @ rest) = ws2 @ ''}}'' @ rest"
      using assms(4) word_not_space brace_classes by (cases ws2) auto
    then show ?thesis
      using assms(2) by (simp add: list_all_iff dropWhile_append2)
  qed
  have d3: "dropWhile is_space (ws2 @ ''}}'' @ rest) = ''}}'' @ rest"
    using assms(4) brace_classes by (simp add: list_all_iff dropWhile_append2)
  show ?thesis
    unfolding match_token_def using assms(3) d1 t d2 d3 by (simp add: Let_def)
qed

lemma match_token_decompose:
  assumes "match_token s = Some (k, rest)"
  shows "\<exists>ws1 ws2. s = ''{{'' @ ws1 @ k @ ws2 @ ''}}'' @ rest \<and>
           list_all is_space ws1 \<and> list_all is_word k \<and> k \<noteq> [] \<and> list_all is_space ws2"
proof -
  have two: "take 2 s = ''{{''"
    using assms by (simp add: match_token_def split: if_splits)
  define s0 where "s0 = drop 2 s"
  define s1 where "s1 = dropWhile is_space s0"
  define sw where "sw = dropWhile is_word s1"
  define s2 where "s2 = dropWhile is_space sw"
  have m: "k = takeWhile is_word s1" "k \<noteq> []" "take 2 s2 = ''}}''" "rest = drop 2 s2"
    using assms two
    by (simp_all add: match_token_def Let_def s0_def s1_def sw_def s2_def split: if_splits)
  have "s = take 2 s @ s0" by (simp add: s0_def)
  moreover have "s0 = takeWhile is_space s0 @ s1" by (simp add: s1_def)
  moreover have "s1 = k @ sw" by (simp add: m(1) sw_def)
  moreover have "sw = takeWhile is_space sw @ s2" by (simp add: s2_def)
  moreover have "s2 = take 2 s2 @ rest" by (simp add: m(4))
  ultimately have "s = ''{{'' @ takeWhile is_space s0 @ k @ takeWhile is_space sw @ ''}}'' @ rest"
    using two m(3) by (metis append_assoc)
  moreover have "list_all is_space (takeWhile is_space s0)" "list_all is_space (takeWhile is_space sw)"
    "list_all is_word k"
    by (auto simp: list_all_iff m(1) dest: set_takeWhileD)
  ultimately show ?thesis
    using m(2) by blast
qed

lemma match_token_append:
  assumes "match_token p = Some (k, rest)"
  shows "match_token (p @ s) = Some (k, rest @ s)"
proof -
  from match_token_decompose [OF assms] obtain ws1 ws2 where
    "p = ''{{'' @ ws1 @ k @ ws2 @ ''}}'' @ rest"
    "list_all is_space ws1" "list_all is_word k" "k \<noteq> []" "list_all is_space ws2"
    by blast
  then show ?thesis
    using match_token_shape [of ws1 k ws2 "rest @ s"] by simp
qed

lemma match_token_append_None:
  assumes "match_token p = None" "p \<noteq> []" "take 2 s = ''{{''"
  shows "match_token (p @ s) = None"
proof -
  obtain s' where s: "s = CHR ''{'' # CHR ''{'' # s'"
    using assms(3) by (cases s; cases "tl s") (auto split: if_splits)
  have stop: "dropWhile P xs \<noteq> [] \<or> s = [] \<or> \<not> P (hd s)" if "\<not> P CHR ''{''" for P xs
    using that s by simp
  show ?thesis
  proof (cases p)
    case Nil
    then show ?thesis using assms(2) by simp
  next
    case (Cons c1 p1)
    show ?thesis
    proof (cases p1)
      case Nil
      then show ?thesis
        using Cons s brace_classes by (simp add: match_token_def)
    next
      case (Cons c2 p')
      show ?thesis
      proof (cases "take 2 p = ''{{''")
        case False
        then show ?thesis
          using \<open>p = c1 # p1\<close> Cons by (auto simp: match_token_def)
      next
        case True
        define s1 where "s1 = dropWhile is_space p'"
        define sw where "sw = dropWhile is_word s1"
        define s2 where "s2 = dropWhile is_space sw"
        have p': "drop 2 p = p'" "drop 2 (p @ s) = p' @ s" "take 2 (p @ s) = ''{{''"
          using \<open>p = c1 # p1\<close> Cons True by simp_all
        have e1: "dropWhile is_space (p' @ s) = s1 @ s"
          unfolding s1_def by (rule dropWhile_append_stop) (rule stop, rule brace_classes)
        have e2: "takeWhile is_word (s1 @ s) = takeWhile is_word s1"
          by (rule takeWhile_append_stop) (rule stop, rule brace_classes)
        have e3: "dropWhile is_word (s1 @ s) = sw @ s"
          unfolding sw_def by (rule dropWhile_append_stop) (rule stop, rule brace_classes)
        have e4: "dropWhile is_space (sw @ s) = s2 @ s"
          unfolding s2_def by (rule dropWhile_append_stop) (rule stop, rule brace_classes)
        have none: "takeWhile is_word s1 = [] \<or> take 2 s2 \<noteq> ''}}''"
          using assms(1) True p'(1)
          by (auto simp: match_token_def Let_def s1_def sw_def s2_def split: if_splits)
        have "take 2 s2 \<noteq> ''}}'' \<Longrightarrow> take 2 (s2 @ s) \<noteq> ''}}''"
          using s by (cases s2; cases "tl s2") auto
        then show ?thesis
          using none p' e1 e2 e3 e4 by (auto simp: match_token_def Let_def)
      qed
    qed
  qed
qed


lemma render_unresolved:
  "find (unresolved ctx) (tokens s) = Some k \<Longrightarrow>
   render ctx s = Inl (Error (''no template variable '' @ k))"
proof (induction ctx s rule: render.induct)
  case (1 ctx)
  then show ?case by simp
next
  case (2 ctx c cs)
  show ?case
  proof (cases "match_token (c # cs)")
    case None
    then show ?thesis using 2 by simp
  next
    case (Some m)
    obtain k' rest where m: "m = (k', rest)" by (cases m)
    show ?thesis
    proof (cases "unresolved ctx k'")
      case True
      then show ?thesis
        using 2(3) Some m by (auto simp: unresolved_def)
    next
      case False
      then have val: "truthy (get_property ctx k')"
        by (simp add: unresolved_def)
      have "find (unresolved ctx) (tokens rest) = Some k"
        using 2(3) Some m False by simp
      from 2(2) [OF Some m [symmetric] val this]
      show ?thesis using Some m val by simp
    qed
  qed
qed

lemma render_resolved:
  "find (unresolved ctx) (tokens s) = None \<Longrightarrow> \<exists>out. render ctx s = Inr out"
proof (induction ctx s rule: render.induct)
  case (1 ctx)
  then show ?case by simp
next
  case (2 ctx c cs)
  show ?case
  proof (cases "match_token (c # cs)")
    case None
    then show ?thesis using 2 by auto
  next
    case (Some m)
    obtain k' rest where m: "m = (k', rest)" by (cases m)
    have nf: "\<not> unresolved ctx k'" "find (unresolved ctx) (tokens rest) = None"
      using 2(3) Some m by (auto split: if_splits)
    then have val: "truthy (get_property ctx k')"
      by (simp add: unresolved_def)
    from 2(2) [OF Some m [symmetric] val nf(2)]
    show ?thesis using Some m val by auto
  qed
qed

lemma render_append:
  assumes "take 2 s = ''{{''"
  shows "render ctx (p @ s) =
     (case render ctx p of
        Inl e \<Rightarrow> Inl e
      | Inr a \<Rightarrow> (case render ctx s of Inl e \<Rightarrow> Inl e | Inr b \<Rightarrow> Inr (a @ b)))"
proof (induction ctx p rule: render.induct)
  case (1 ctx)
  then show ?case by (simp split: sum.splits)
next
  case (2 ctx c cs)
  show ?case
  proof (cases "match_token (c # cs)")
    case None
    then have "match_token ((c # cs) @ s) = None"
      using assms by (intro match_token_append_None) simp_all
    then show ?thesis
      using None 2(1) by (simp split: sum.splits)
  next
    case (Some m)
    obtain k' rest where m: "m = (k', rest)" by (cases m)
    have ms: "match_token ((c # cs) @ s) = Some (k', rest @ s)"
      using Some m by (intro match_token_append) simp
    show ?thesis
    proof (cases "truthy (get_property ctx k')")
      case False
      then show ?thesis using Some m ms by simp
    next
      case True
      from 2(2) [OF Some m [symmetric] True]
      show ?thesis
        using True Some m ms by (simp split: sum.splits)
    qed
  qed
qed

lemma render_token:
  assumes "list_all is_space ws1" "list_all is_word k" "k \<noteq> []" "list_all is_space ws2"
    and "ctx k = Some val" "val \<noteq> []"
  shows "render ctx (''{{'' @ ws1 @ k @ ws2 @ ''}}'' @ post) =
     (case render ctx post of Inl e \<Rightarrow> Inl e | Inr b \<Rightarrow> Inr (val @ b))"
proof -
  have eq: "''{{'' @ ws1 @ k @ ws2 @ ''}}'' @ post = CHR ''{'' # (CHR ''{'' # ws1 @ k @ ws2 @ ''}}'' @ post)"
    by simp
  have mt: "match_token (CHR ''{'' # (CHR ''{'' # ws1 @ k @ ws2 @ ''}}'' @ post)) = Some (k, post)"
    using match_token_shape [OF assms(1-4), of post] by simp
  have gp: "get_property ctx k = JsString val"
    by (simp add: get_property_def assms(5))
  show ?thesis
    by (subst eq, subst render.simps(2), subst mt) (simp add: gp assms(6) split: sum.splits)
qed

lemma endsWith_append: "endsWith s t \<Longrightarrow> \<exists>p. s = p @ t"
  by (metis append_take_drop_id endsWith_def)

lemma tmpl_not_DS_Store: "endsWith p ''.tmpl'' \<Longrightarrow> \<not> endsWith p ''.DS_Store''"
proof
  assume "endsWith p ''.tmpl''" "endsWith p ''.DS_Store''"
  then obtain a b where "p = a @ ''.tmpl''" "p = b @ ''.DS_Store''"
    using endsWith_append by blast
  then have "last (a @ ''.tmpl'') = last (b @ ''.DS_Store'')" by simp
  then show False by simp
qed

lemma case_option_same: "(case x of None \<Rightarrow> a | Some y \<Rightarrow> a) = a"
  by (cases x) simp_all

lemma mkdir_irrelevant:
  "recursiveCopyTemplate (E\<lparr>mkdir := f\<rparr>) inputRoot outputRoot ctx stepPath node log =
     recursiveCopyTemplate E inputRoot outputRoot ctx stepPath node log"
  "copyEntries (E\<lparr>mkdir := f\<rparr>) inputRoot outputRoot ctx stepPath entries log =
     copyEntries E inputRoot outputRoot ctx stepPath entries log"
proof (induction E inputRoot outputRoot ctx stepPath node log
    and E inputRoot outputRoot ctx stepPath entries log
    rule: recursiveCopyTemplate_copyEntries.induct)
  case (1 E inputRoot outputRoot ctx stepPath entries log)
  then show ?case by (simp add: Let_def case_option_same)
next
  case (2 E inputRoot outputRoot ctx stepPath contents log)
  then show ?case by (simp add: Let_def split: sum.splits)
next
  case (3 E inputRoot outputRoot ctx stepPath log)
  then show ?case by simp
next
  case (4 E inputRoot outputRoot ctx stepPath entry node entries log)
  then show ?case by (simp split: prod.splits option.splits)
qed


text \<open>
  What the code does do: in a file whose path ends in \<^verbatim>\<open>.tmpl\<close>, a token whose key
  \<open>k\<close> is unresolved (no value or the empty string in the context, and not a name
  inherited from \<^verbatim>\<open>Object.prototype\<close>) makes rendering throw
  \<^verbatim>\<open>no template variable k'\<close>, where \<open>k'\<close> is the key of the first unresolved token
  (so \<open>k\<close> itself when no other key is unresolved), and no effect is called for the
  file.
\<close>

lemma render_unresolved_placeholder:
  assumes "endsWith (join E inputRoot stepPath) ''.tmpl''"
    and "k \<in> set (tokens contents)"
    and "unresolved ctx k"
  shows
    "\<exists>k'. find (unresolved ctx) (tokens contents) = Some k' \<and>
        k' \<in> set (tokens contents) \<and> unresolved ctx k' \<and>
        ((\<forall>x \<in> set (tokens contents). unresolved ctx x \<longrightarrow> x = k) \<longrightarrow> k' = k) \<and>
        recursiveCopyTemplate E inputRoot outputRoot ctx stepPath (File contents) log =
          (log, Some (Error (''no template variable '' @ k')))"
proof -
  obtain k' where k': "find (unresolved ctx) (tokens contents) = Some k'"
    using assms(2,3) by (cases "find (unresolved ctx) (tokens contents)") (auto simp: find_None_iff)
  then have mem: "k' \<in> set (tokens contents)" "unresolved ctx k'"
    by (auto simp: find_Some_iff)
  have "recursiveCopyTemplate E inputRoot outputRoot ctx stepPath (File contents) log =
          (log, Some (Error (''no template variable '' @ k')))"
    using assms(1) tmpl_not_DS_Store [OF assms(1)] render_unresolved [OF k']
    by (simp add: Let_def)
  then show ?thesis using k' mem by blast
qed

lemma example_tokens:
  "tokens ''# {{ projectTitle }} run {{runCommand}} {{ missingKey}}'' =
     [''projectTitle'', ''runCommand'', ''missingKey'']"
  by code_simp

lemma render_unresolved_placeholder_example:
  "recursiveCopyTemplate (example_effects (\<lambda>p. None)) ''templates/default'' ''hello-framework''
     example_context ''README.md.tmpl''
     (File ''# {{ projectTitle }} run {{runCommand}} {{ missingKey}}'') [] =
     ([], Some (Error ''no template variable runCommand''))"
proof -
  have 1: "endsWith (join (example_effects (\<lambda>p. None)) ''templates/default'' ''README.md.tmpl'') ''.tmpl''"
    by (simp add: example_effects_def endsWith_def)
  have 2: "''missingKey'' \<in> set (tokens ''# {{ projectTitle }} run {{runCommand}} {{ missingKey}}'')"
    by (subst example_tokens) simp
  have 3: "unresolved example_context ''missingKey''"
    by (simp add: unresolved_def example_context_def get_property_def object_prototype_names_def)
  have 4: "find (unresolved example_context) [''projectTitle'', ''runCommand'', ''missingKey''] =
      Some ''runCommand''"
    by (simp add: unresolved_def example_context_def get_property_def object_prototype_names_def)
  show ?thesis
    using render_unresolved_placeholder [OF 1 2 3, unfolded example_tokens,
        where outputRoot = "''hello-framework''" and log = "[]"] 4
    by auto
qed

lemma inherited_key_resolved:
  "ctx k = None \<Longrightarrow> k \<in> set object_prototype_names \<Longrightarrow> \<not> unresolved ctx k"
  by (simp add: unresolved_def get_property_def)


text \<open>
  Claim C3 does not hold of the code for every key. The context is a plain object, so
  for a key that \<^verbatim>\<open>Object.prototype\<close> provides, such as \<^verbatim>\<open>constructor\<close>, the lookup
  \<^verbatim>\<open>context[key]\<close> yields the inherited function although the context maps no such
  key; the function is truthy, so nothing is thrown and the file is written with the
  function's text in place of the token. The claim asks for a failure that names
  \<^verbatim>\<open>constructor\<close> and for no write.
\<close>

theorem render_inherited_key:
  "example_context ''constructor'' = None \<and>
   recursiveCopyTemplate (example_effects (\<lambda>p. None)) ''templates/default'' ''hello-framework''
     example_context ''README.md.tmpl'' (File ''# {{constructor}}'') [] =
     ([WriteFile ''hello-framework/README.md'' ''# function Object() { [native code] }''], None)"
proof -
  have "render example_context ''# {{constructor}}'' =
      Inr ''# function Object() { [native code] }''"
    by code_simp
  then show ?thesis
    by (simp add: example_effects_def example_context_def endsWith_def stripTmpl_def Let_def
        del: render.simps)
qed


text \<open>
  Claim C6. The contents hold the token \<^verbatim>\<open>{{projectTitle}}\<close>, with any white space
  inside the braces, between a text \<open>pre\<close> and a text \<open>post\<close> that render to \<open>a\<close> and
  \<open>b\<close>; the context maps \<^verbatim>\<open>projectTitle\<close> to \<^verbatim>\<open>hello-framework\<close>. Then the file
  written is \<open>a\<close>, then exactly \<^verbatim>\<open>hello-framework\<close> in place of the whole token,
  braces included, then \<open>b\<close>. For the file that is the token alone, the output is
  \<^verbatim>\<open>hello-framework\<close>.
\<close>

theorem render_projectTitle:
  assumes "endsWith (join E inputRoot stepPath) ''.tmpl''"
    and "list_all is_space ws1" and "list_all is_space ws2"
    and "ctx ''projectTitle'' = Some ''hello-framework''"
    and "render ctx pre = Inr a" and "render ctx post = Inr b"
  shows
    "recursiveCopyTemplate E inputRoot outputRoot ctx stepPath
       (File (pre @ ''{{'' @ ws1 @ ''projectTitle'' @ ws2 @ ''}}'' @ post)) log =
       (log @ [WriteFile (stripTmpl (join E outputRoot stepPath)) (a @ ''hello-framework'' @ b)],
        writeFile E (stripTmpl (join E outputRoot stepPath)) (a @ ''hello-framework'' @ b))"
proof -
  have w: "list_all is_word ''projectTitle''"
    by (simp add: is_word_def)
  have "render ctx (''{{'' @ ws1 @ ''projectTitle'' @ ws2 @ ''}}'' @ post) = Inr (''hello-framework'' @ b)"
    using render_token [of ws1 "''projectTitle''" ws2 ctx "''hello-framework''" post] w assms(2,3,4,6)
    by simp
  moreover have "take 2 (''{{'' @ ws1 @ ''projectTitle'' @ ws2 @ ''}}'' @ post) = ''{{''"
    by simp
  ultimately have "render ctx (pre @ ''{{'' @ ws1 @ ''projectTitle'' @ ws2 @ ''}}'' @ post) =
      Inr (a @ ''hello-framework'' @ b)"
    using render_append [of "''{{'' @ ws1 @ ''projectTitle'' @ ws2 @ ''}}'' @ post" ctx pre] assms(5)
    by simp
  then show ?thesis
    using assms(1) tmpl_not_DS_Store [OF assms(1)] by (simp add: Let_def)
qed

theorem render_projectTitle_witness:
  "recursiveCopyTemplate (example_effects (\<lambda>p. None)) ''templates/default'' ''hello-framework''
     example_context ''title.txt.tmpl'' (File ''{{projectTitle}}'') [] =
     ([WriteFile ''hello-framework/title.txt'' ''hello-framework''], None) \<and>
   recursiveCopyTemplate (example_effects (\<lambda>p. None)) ''templates/default'' ''hello-framework''
     example_context ''README.md.tmpl'' (File ''# {{  projectTitle }}!'') [] =
     ([WriteFile ''hello-framework/README.md'' ''# hello-framework!''], None)"
proof -
  have 1:
    "endsWith (join (example_effects (\<lambda>p. None)) ''templates/default'' ''title.txt.tmpl'') ''.tmpl''"
    "endsWith (join (example_effects (\<lambda>p. None)) ''templates/default'' ''README.md.tmpl'') ''.tmpl''"
    by (simp_all add: example_effects_def endsWith_def)
  have 2: "list_all is_space ''  ''" "list_all is_space '' ''" "list_all is_space []"
    by (simp_all add: is_space_def)
  have 3: "example_context ''projectTitle'' = Some ''hello-framework''"
    by (simp add: example_context_def)
  have 4: "render example_context [] = Inr []" "render example_context ''# '' = Inr ''# ''"
    "render example_context ''!'' = Inr ''!''"
    by (simp_all add: match_token_def)
  show ?thesis
    using
      render_projectTitle [OF 1(1) 2(3) 2(3) 3 4(1) 4(1),
        where outputRoot = "''hello-framework''" and log = "[]"]
      render_projectTitle [OF 1(2) 2(1) 2(2) 3 4(2) 4(3),
        where outputRoot = "''hello-framework''" and log = "[]"]
    by (simp add: example_effects_def stripTmpl_def endsWith_def)
qed


text \<open>
  Claim C5, as amended. A file is skipped (no effect is called for it and nothing is
  thrown) if and only if its template path ends in \<^verbatim>\<open>.DS_Store\<close>; every other file
  whose path does not end in \<^verbatim>\<open>.tmpl\<close> is handed to \<^verbatim>\<open>copyFile\<close>, from the template
  path to the output path, and to nothing else.
\<close>

theorem skip_DS_Store:
  "(endsWith (join E inputRoot stepPath) ''.DS_Store'' \<longrightarrow>
      recursiveCopyTemplate E inputRoot outputRoot ctx stepPath (File contents) log = (log, None)) \<and>
   (\<not> endsWith (join E inputRoot stepPath) ''.DS_Store'' \<longrightarrow>
      recursiveCopyTemplate E inputRoot outputRoot ctx stepPath (File contents) log \<noteq> (log, None)) \<and>
   (\<not> endsWith (join E inputRoot stepPath) ''.DS_Store'' \<and>
    \<not> endsWith (join E inputRoot stepPath) ''.tmpl'' \<longrightarrow>
      recursiveCopyTemplate E inputRoot outputRoot ctx stepPath (File contents) log =
        (log @ [CopyFile (join E inputRoot stepPath) (join E outputRoot stepPath)],
         copyFile E (join E inputRoot stepPath) (join E outputRoot stepPath)))"
  by (simp add: Let_def split: sum.splits)

theorem skip_DS_Store_witness:
  "recursiveCopyTemplate (example_effects (\<lambda>p. None)) ''templates/default'' ''hello-framework''
     example_context ''docs/.DS_Store'' (File ''Bud1'') [] = ([], None) \<and>
   recursiveCopyTemplate (example_effects (\<lambda>p. None)) ''templates/default'' ''hello-framework''
     example_context ''docs/index.md'' (File ''# {{projectTitle}}'') [] =
     ([CopyFile ''templates/default/docs/index.md'' ''hello-framework/docs/index.md''], None)"
  using
    skip_DS_Store [where E = "example_effects (\<lambda>p. None)" and inputRoot = "''templates/default''"
      and stepPath = "''docs/.DS_Store''" and outputRoot = "''hello-framework''"
      and ctx = example_context and contents = "''Bud1''" and log = "[]"]
    skip_DS_Store [where E = "example_effects (\<lambda>p. None)" and inputRoot = "''templates/default''"
      and stepPath = "''docs/index.md''" and outputRoot = "''hello-framework''"
      and ctx = example_context and contents = "''# {{projectTitle}}''" and log = "[]"]
  by (simp add: example_effects_def endsWith_def)


text \<open>
  Claim C5 as stated fails: a file named \<^verbatim>\<open>notes.DS_Store\<close>, which is not the marker
  name \<^verbatim>\<open>.DS_Store\<close>, is skipped as well, since the test is \<^verbatim>\<open>endsWith\<close> on the path.
\<close>

theorem skip_only_exact_name_counterexample:
  "recursiveCopyTemplate (example_effects (\<lambda>p. None)) ''templates/default'' ''hello-framework''
     example_context ''.''
     (Directory [(''notes.DS_Store'', File ''my notes''), (''index.md'', File ''# Home'')]) [] =
     ([Mkdir ''hello-framework'',
       CopyFile ''templates/default/index.md'' ''hello-framework/index.md''], None) \<and>
   ''notes.DS_Store'' \<noteq> ''.DS_Store''"
  by (simp add: example_effects_def endsWith_def Let_def)


text \<open>
  Claim C10. On a directory, \<^verbatim>\<open>recursiveCopyTemplate\<close> calls \<^verbatim>\<open>mkdir\<close> on the output
  path and then walks the entries, whatever \<^verbatim>\<open>mkdir\<close> did: the result is that of the
  walk of the entries with a \<^verbatim>\<open>mkdir\<close> that never fails, so no error of \<^verbatim>\<open>mkdir\<close>,
  of any kind, is thrown or changes what follows.
\<close>

theorem mkdir_errors_suppressed:
  "recursiveCopyTemplate (E\<lparr>mkdir := f\<rparr>) inputRoot outputRoot ctx stepPath (Directory entries) log =
     copyEntries (E\<lparr>mkdir := (\<lambda>p. None)\<rparr>) inputRoot outputRoot ctx stepPath entries
       (log @ [Mkdir (join E outputRoot stepPath)])"
  by (simp add: Let_def case_option_same mkdir_irrelevant)

theorem mkdir_errors_suppressed_witness:
  "recursiveCopyTemplate (example_effects (\<lambda>p. Some (Error ''EACCES: permission denied'')))
     ''templates/default'' ''hello-framework'' example_context ''.''
     (Directory [(''docs'', Directory [(''index.md'', File ''# Home'')])]) [] =
     ([Mkdir ''hello-framework'', Mkdir ''hello-framework/docs'',
       CopyFile ''templates/default/docs/index.md'' ''hello-framework/docs/index.md''], None)"
  using mkdir_errors_suppressed [where E = "example_effects (\<lambda>p. None)"
      and f = "\<lambda>p. Some (Error ''EACCES: permission denied'')"
      and inputRoot = "''templates/default''" and outputRoot = "''hello-framework''"
      and ctx = example_context and stepPath = "''.''"
      and entries = "[(''docs'', Directory [(''index.md'', File ''# Home'')])]" and log = "[]"]
  by (simp add: example_effects_def endsWith_def Let_def)

end
